theory Spec2Isabelle
  imports Main "HOL-Library.Word" "HOL-Library.Sublist"
begin

section \<open>UPnP gateway discovery and port-mapping enumeration (upnp-portmapping.go)\<close>

text \<open>
  The program is one Go file. It calls \<open>net/http\<close>, \<open>net/url\<close>, \<open>strings\<close> and \<open>strconv\<close> of the
  standard library, and \<open>httpu\<close>, \<open>soap\<close> and \<open>internetgateway1\<close> of goupnp. None of
  their code is part of the program. A library call whose result depends on the network
  or on a parser of its own is a parameter of the model (the record \<open>lib\<close>, and the
  function fields of a connection); the model fixes nothing about it. The functions on
  strings and numbers (\<open>strings.Contains\<close>, \<open>strings.Split\<close>, \<open>strconv.FormatInt\<close>) are
  written out.
\<close>

subsection \<open>Data\<close>

text \<open>A Go \<open>error\<close> is represented by its message.\<close>

type_synonym error = string

text \<open>\<open>url.URL\<close>: the fields a parsed location carries. The program reads and writes \<open>Host\<close> only.\<close>

record url =
  Scheme :: string
  Opaque :: string
  User :: string
  Host :: string
  Path :: string
  RawQuery :: string
  Fragment :: string

text \<open>\<open>http.Header\<close> as the request literal builds it: a map from header name to values.\<close>

type_synonym header = "string \<rightharpoonup> string list"

text \<open>\<open>http.Request\<close>, the fields the request literal of \<open>ssdpRawSearch\<close> sets.\<close>

record request =
  Method :: string
  ReqHost :: string
  URL :: url
  ReqHeader :: header

text \<open>
  \<open>http.Response\<close>. The program reads a response's headers through \<open>Header.Get\<close> only, so
  the field \<open>Header\<close> is that lookup: \<open>Header r k\<close> is what \<open>r.Header.Get(k)\<close> returns, the
  empty string when the header is absent.
\<close>

record response =
  Status :: string
  StatusCode :: int
  Header :: "string \<Rightarrow> string"

text \<open>\<open>httpu.HTTPUClient\<close>, by its method \<open>Do(req, timeout, numSends)\<close>; the timeout is a
  \<open>time.Duration\<close>, a number of nanoseconds.\<close>

type_synonym HTTPUClient = "request \<Rightarrow> int \<Rightarrow> int \<Rightarrow> error + response list"

record PortMappingEntry =
  NewRemoteHost :: string
  NewExternalPort :: string
  NewProtocol :: string
  NewInternalPort :: string
  NewInternalClient :: string
  NewEnabled :: string
  NewPortMappingDescription :: string
  NewLeaseDuration :: string

record portMappingRequest =
  NewPortMappingIndex :: string

text \<open>
  \<open>internetgateway1.WANIPConnection1\<close>, by what the program uses of it: the device's friendly
  name, the service's string form, and \<open>SOAPClient.PerformAction(urn, action, request)\<close>
  with its decoded reply.
\<close>

record WANIPConnection1 =
  FriendlyName :: string
  ServiceString :: string
  PerformAction :: "string \<Rightarrow> string \<Rightarrow> portMappingRequest \<Rightarrow> error + PortMappingEntry"

text \<open>The library calls that are parameters of the model.\<close>

record lib =
  NewHTTPUClient :: "error + HTTPUClient"
  url_Parse :: "string \<Rightarrow> error + url"
  Location :: "response \<Rightarrow> error + url"
  url_String :: "url \<Rightarrow> string"
  NewWANIPConnection1ClientsByURL :: "url \<Rightarrow> error + WANIPConnection1 list"

text \<open>One constructor for each place where the program writes to the log.\<close>

datatype log_line =
    LogStatusCode string
  | LogNoLocation error
  | LogEmptyUSN
  | LogDaemonLocation string
  | LogClient string string
  | LogEntry PortMappingEntry
  | LogFatal error

subsection \<open>Constants\<close>

definition maxWaitSeconds :: int where "maxWaitSeconds = 5"
definition methodSearch :: string where "methodSearch = ''M-SEARCH''"
definition searchTarget :: string where "searchTarget = ''upnp:rootdevice''"
definition ssdpDiscover :: string where "ssdpDiscover = ''ssdp:discover''"
definition numSends :: int where "numSends = 2"

text \<open>\<open>time.Second\<close> and \<open>time.Millisecond\<close>, in nanoseconds.\<close>

definition Second :: int where "Second = 1000000000"
definition Millisecond :: int where "Millisecond = 1000000"

text \<open>\<open>internetgateway1.URN_WANIPConnection_1\<close>.\<close>

definition URN_WANIPConnection_1 :: string where
  "URN_WANIPConnection_1 = ''urn:schemas-upnp-org:service:WANIPConnection:1''"

subsection \<open>Library functions on strings and numbers\<close>

text \<open>
  \<open>strings.Contains(s, sep)\<close> of the Go standard library, for a separator of one byte, as
  the program calls it (\<open>":"\<close>).
\<close>

definition Contains :: "string \<Rightarrow> char \<Rightarrow> bool" where
  "Contains s sep = (sep \<in> set s)"

text \<open>
  \<open>strings.Split(s, sep)\<close> of the Go standard library, for a separator of one byte: the
  substrings between the separators, in order, one more than there are separators;
  \<open>Split("", ":")\<close> is the one empty string.
\<close>

fun Split :: "string \<Rightarrow> char \<Rightarrow> string list" where
  "Split [] sep = [[]]"
| "Split (c # cs) sep =
     (if c = sep then [] # Split cs sep
      else (case Split cs sep of [] \<Rightarrow> [[c]] | x # xs \<Rightarrow> (c # x) # xs))"

text \<open>
  \<open>strconv.FormatUint(v, 10)\<close> and \<open>strconv.FormatInt(v, 10)\<close> of the Go standard library:
  the number in decimal digits, without leading zeros, with a minus sign when it is
  negative. \<open>digit\<close> is the digit of a number below ten.
\<close>

definition digit :: "nat \<Rightarrow> char" where
  "digit d = ''0123456789'' ! d"

function FormatUint :: "nat \<Rightarrow> string" where
  "FormatUint n = (if n < 10 then [digit n] else FormatUint (n div 10) @ [digit (n mod 10)])"
  by pat_completeness auto
termination
  by (relation "measure id") auto

declare FormatUint.simps [simp del]

definition FormatInt :: "int \<Rightarrow> string" where
  "FormatInt i = (if i < 0 then CHR ''-'' # FormatUint (nat (- i)) else FormatUint (nat i))"

text \<open>
  Modelled from the spec: \<open>soap.MarshalUi2\<close> of goupnp, which is called by
  \<open>portMappingByIdx\<close> and is not under src/. The spec says of it that the index is
  encoded as the protocol's unsigned 16-bit representation and that the encoding does
  not fail for a valid index: the model is the index in decimal digits, and no index
  gives an error. The result keeps the error slot of the Go signature
  \<open>(string, error)\<close>.
\<close>

definition MarshalUi2 :: "16 word \<Rightarrow> error + string" where
  "MarshalUi2 v = Inr (FormatUint (unat v))"

subsection \<open>ssdpRawSearch\<close>

text \<open>The request literal \<open>req\<close>.\<close>

definition ssdpRequest :: "string \<Rightarrow> request" where
  "ssdpRequest host =
     \<lparr>Method = methodSearch,
      ReqHost = host,
      URL = \<lparr>Scheme = [], Opaque = ''*'', User = [], Host = [], Path = [],
             RawQuery = [], Fragment = []\<rparr>,
      ReqHeader = [''HOST'' \<mapsto> [host],
                   ''MX'' \<mapsto> [FormatInt maxWaitSeconds],
                   ''MAN'' \<mapsto> [ssdpDiscover],
                   ''ST'' \<mapsto> [searchTarget]]\<rparr>"

text \<open>The variables of the loop over \<open>allResponses\<close>, and the lines it has logged.\<close>

record search_state =
  seenUsns :: "string \<rightharpoonup> bool"
  responses :: "response list"
  logged :: "log_line list"

text \<open>The body of the loop, for one response.\<close>

definition search_body :: "lib \<Rightarrow> response \<Rightarrow> search_state \<Rightarrow> search_state" where
  "search_body L response st =
     (if StatusCode response \<noteq> 200
      then st\<lparr>logged := logged st @ [LogStatusCode (Status response)]\<rparr>
      else
        (case Location L response of
           Inl err \<Rightarrow> st\<lparr>logged := logged st @ [LogNoLocation err]\<rparr>
         | Inr location \<Rightarrow>
             (let (usn, st1) =
                    (if Header response ''USN'' = []
                     then (url_String L location, st\<lparr>logged := logged st @ [LogEmptyUSN]\<rparr>)
                     else (Header response ''USN'', st))
              in if seenUsns st1 usn = None
                 then st1\<lparr>seenUsns := (seenUsns st1)(usn \<mapsto> True),
                         responses := responses st1 @ [response]\<rparr>
                 else st1)))"

fun search_loop :: "lib \<Rightarrow> response list \<Rightarrow> search_state \<Rightarrow> search_state" where
  "search_loop L [] st = st"
| "search_loop L (response # rest) st = search_loop L rest (search_body L response st)"

definition search_init :: search_state where
  "search_init = \<lparr>seenUsns = Map.empty, responses = [], logged = []\<rparr>"

definition ssdpRawSearch ::
  "lib \<Rightarrow> HTTPUClient \<Rightarrow> string \<Rightarrow> (error + response) \<times> log_line list" where
  "ssdpRawSearch L httpu host =
     (case httpu (ssdpRequest host) (maxWaitSeconds * Second + 100 * Millisecond) numSends of
        Inl err \<Rightarrow> (Inl err, [])
      | Inr allResponses \<Rightarrow>
          (let st = search_loop L allResponses search_init
           in (case responses st of
                 [] \<Rightarrow> (Inl ''No SSDP response avaiable'', logged st)
               | r0 # _ \<Rightarrow> (Inr r0, logged st))))"

subsection \<open>upnpLocation\<close>

text \<open>
  \<open>strings.Split(loc.Host, ":")[1]\<close> panics when the slice has fewer than two elements;
  the panic is the error \<open>index out of range\<close> of the model.
\<close>

definition upnpLocation ::
  "lib \<Rightarrow> string \<Rightarrow> string \<Rightarrow> (error + url) \<times> log_line list" where
  "upnpLocation L host port =
     (case NewHTTPUClient L of
        Inl err \<Rightarrow> (Inl err, [])
      | Inr udpcl \<Rightarrow>
          (case ssdpRawSearch L udpcl (host @ port) of
             (Inl err, lg) \<Rightarrow> (Inl err, lg)
           | (Inr resp, lg) \<Rightarrow>
               (let rawurl = Header resp ''Location'' in
                (case url_Parse L rawurl of
                   Inl err \<Rightarrow> (Inl err, lg)
                 | Inr loc \<Rightarrow>
                     (let lg1 = lg @ [LogDaemonLocation rawurl] in
                      if Contains (Host loc) CHR '':''
                      then (case Split (Host loc) CHR '':'' of
                              _ # upnpPort # _ \<Rightarrow>
                                (Inr (loc\<lparr>Host := host @ '':'' @ upnpPort\<rparr>), lg1)
                            | _ \<Rightarrow> (Inl ''index out of range'', lg1))
                      else (Inr (loc\<lparr>Host := host\<rparr>), lg1))))))"

subsection \<open>portMappingByIdx\<close>

definition portMappingByIdx ::
  "WANIPConnection1 \<Rightarrow> 16 word \<Rightarrow> error + PortMappingEntry" where
  "portMappingByIdx conn index =
     (case MarshalUi2 index of
        Inl err \<Rightarrow> Inl err
      | Inr si \<Rightarrow>
          (case PerformAction conn URN_WANIPConnection_1 ''GetGenericPortMappingEntry''
                  \<lparr>NewPortMappingIndex = si\<rparr> of
             Inl err \<Rightarrow> Inl err
           | Inr pme \<Rightarrow> Inr pme))"

subsection \<open>main\<close>

text \<open>
  \<open>log.Fatal(err)\<close> logs the error and ends the process: the result \<open>Some err\<close>. The inner
  loop \<open>for i := 0; i < 50; i++\<close> of \<open>main\<close>, from \<open>i\<close> on; \<open>uint16(i)\<close> is \<open>of_nat i\<close>.
\<close>

function entries_loop ::
  "WANIPConnection1 \<Rightarrow> nat \<Rightarrow> log_line list \<Rightarrow> error option \<times> log_line list" where
  "entries_loop c i lg =
     (if i < 50
      then (case portMappingByIdx c (of_nat i) of
              Inl err \<Rightarrow> (Some err, lg @ [LogFatal err])
            | Inr pme \<Rightarrow> entries_loop c (Suc i) (lg @ [LogEntry pme]))
      else (None, lg))"
  by pat_completeness auto
termination
  by (relation "measure (\<lambda>(c, i, lg). 50 - i)") auto

declare entries_loop.simps [simp del]

text \<open>The outer loop over \<open>ipclients\<close>.\<close>

fun clients_loop ::
  "WANIPConnection1 list \<Rightarrow> log_line list \<Rightarrow> error option \<times> log_line list" where
  "clients_loop [] lg = (None, lg)"
| "clients_loop (c # cs) lg =
     (case entries_loop c 0 (lg @ [LogClient (FriendlyName c) (ServiceString c)]) of
        (Some err, lg1) \<Rightarrow> (Some err, lg1)
      | (None, lg1) \<Rightarrow> clients_loop cs lg1)"

text \<open>\<open>main\<close>, from the values of the flags \<open>-host\<close> and \<open>-p\<close>.\<close>

definition main :: "lib \<Rightarrow> string \<Rightarrow> string \<Rightarrow> error option \<times> log_line list" where
  "main L host port =
     (case upnpLocation L host port of
        (Inl err, lg) \<Rightarrow> (Some err, lg @ [LogFatal err])
      | (Inr loc, lg) \<Rightarrow>
          (case NewWANIPConnection1ClientsByURL L loc of
             Inl err \<Rightarrow> (Some err, lg @ [LogFatal err])
           | Inr ipclients \<Rightarrow> clients_loop ipclients lg))"

subsection \<open>Notions used to state the properties\<close>

text \<open>
  These three definitions are not functions of the program. They say, in the spec's
  words, what the loop of \<open>ssdpRawSearch\<close> is to compute, and the lemmas below compare
  the loop with them.

  The dedup key of a response: none when the response is discarded (its status is not
  200, or \<open>Location()\<close> gives an error); otherwise the USN header when it is not empty,
  and the string of the parsed location when it is.
\<close>

definition dedup_key :: "lib \<Rightarrow> response \<Rightarrow> string option" where
  "dedup_key L r =
     (if StatusCode r \<noteq> 200 then None
      else (case Location L r of
              Inl err \<Rightarrow> None
            | Inr location \<Rightarrow>
                Some (if Header r ''USN'' = [] then url_String L location
                      else Header r ''USN'')))"

text \<open>The responses that are the first with their key, the keys of \<open>seen\<close> being taken.\<close>

fun first_seen :: "lib \<Rightarrow> string set \<Rightarrow> response list \<Rightarrow> response list" where
  "first_seen L seen [] = []"
| "first_seen L seen (r # rs) =
     (case dedup_key L r of
        None \<Rightarrow> first_seen L seen rs
      | Some k \<Rightarrow> if k \<in> seen then first_seen L seen rs
                  else r # first_seen L (insert k seen) rs)"

text \<open>The lines the loop logs for one response.\<close>

definition response_log :: "lib \<Rightarrow> response \<Rightarrow> log_line list" where
  "response_log L r =
     (if StatusCode r \<noteq> 200 then [LogStatusCode (Status r)]
      else (case Location L r of
              Inl err \<Rightarrow> [LogNoLocation err]
            | Inr location \<Rightarrow> if Header r ''USN'' = [] then [LogEmptyUSN] else []))"

subsection \<open>Sample inputs\<close>

text \<open>
  A library instance for the examples: \<open>url.Parse\<close> on three locations (the host field of
  a parsed URL keeps the port), a device description at \<open>/desc.xml\<close>, and a client whose
  \<open>Do\<close> returns the given responses.
\<close>

definition demo_url :: "string \<Rightarrow> url" where
  "demo_url h = \<lparr>Scheme = ''http'', Opaque = [], User = [], Host = h, Path = ''/desc.xml'',
                  RawQuery = [], Fragment = []\<rparr>"

definition demo_Parse :: "string \<Rightarrow> error + url" where
  "demo_Parse s =
     (if s = ''http://192.168.1.1:5000/desc.xml'' then Inr (demo_url ''192.168.1.1:5000'')
      else if s = ''http://192.168.1.1/desc.xml'' then Inr (demo_url ''192.168.1.1'')
      else if s = ''http://[2001:db8::1]:8080/desc.xml'' then Inr (demo_url ''[2001:db8::1]:8080'')
      else Inl ''parse error'')"

definition demo_String :: "url \<Rightarrow> string" where
  "demo_String u = Scheme u @ ''://'' @ Host u @ Path u"

definition demo_response :: "int \<Rightarrow> string \<Rightarrow> string \<Rightarrow> response" where
  "demo_response code loc usn =
     \<lparr>Status = (if code = 200 then ''200 OK'' else ''500 Internal Server Error''),
      StatusCode = code,
      Header = (\<lambda>k. if k = ''Location'' then loc else if k = ''USN'' then usn else [])\<rparr>"

definition demo_lib :: "response list \<Rightarrow> lib" where
  "demo_lib rs =
     \<lparr>NewHTTPUClient = Inr (\<lambda>req timeout n. Inr rs),
      url_Parse = demo_Parse,
      Location = (\<lambda>r. if Header r ''Location'' = []
                       then Inl ''http: no Location header in response''
                       else demo_Parse (Header r ''Location'')),
      url_String = demo_String,
      NewWANIPConnection1ClientsByURL = (\<lambda>loc. Inr [])\<rparr>"

text \<open>
  A connection whose table has the \<open>K\<close> entries of the indices below \<open>K\<close>; the entry of an
  index carries the index as its ports. Any other index is an error.
\<close>

definition demo_entry :: "string \<Rightarrow> PortMappingEntry" where
  "demo_entry s =
     \<lparr>NewRemoteHost = [], NewExternalPort = s, NewProtocol = ''TCP'', NewInternalPort = s,
      NewInternalClient = ''192.168.1.10'', NewEnabled = ''1'',
      NewPortMappingDescription = [], NewLeaseDuration = ''0''\<rparr>"

definition demo_conn :: "nat \<Rightarrow> WANIPConnection1" where
  "demo_conn K =
     \<lparr>FriendlyName = ''gateway'', ServiceString = ''WANIPConnection'',
      PerformAction = (\<lambda>urn action req.
         if NewPortMappingIndex req \<in> set (map FormatUint [0..<K])
         then Inr (demo_entry (NewPortMappingIndex req))
         else Inl ''SpecifiedArrayIndexInvalid'')\<rparr>"

definition demo_table :: "nat \<Rightarrow> PortMappingEntry list" where
  "demo_table K = map (\<lambda>j. demo_entry (FormatUint j)) [0..<K]"

section \<open>Properties\<close>

subsection \<open>strings.Split\<close>

lemma Split_not_Nil: "Split s sep \<noteq> []"
  by (induction s) (auto split: list.splits)


lemma Split_first: "sep \<notin> set h \<Longrightarrow> Split (h @ sep # t) sep = h # Split t sep"
  by (induction h) auto

lemma Split_sep_two:
  assumes "sep \<in> set s"
  shows "\<exists>a b rest. Split s sep = a # b # rest"
proof -
  from assms obtain h t where s: "s = h @ sep # t" and h: "sep \<notin> set h"
    by (auto dest: split_list_first)
  obtain b rest where "Split t sep = b # rest"
    using Split_not_Nil [of t sep] by (cases "Split t sep") auto
  with s h show ?thesis by (simp add: Split_first)
qed

subsection \<open>The loop of ssdpRawSearch\<close>

lemma responses_search_body:
  "responses (search_body L r st) =
     (case dedup_key L r of
        None \<Rightarrow> responses st
      | Some k \<Rightarrow> if k \<in> dom (seenUsns st) then responses st else responses st @ [r])"
  by (auto simp: search_body_def dedup_key_def Let_def split: sum.splits)

lemma dom_seenUsns_search_body:
  "dom (seenUsns (search_body L r st)) =
     (case dedup_key L r of
        None \<Rightarrow> dom (seenUsns st)
      | Some k \<Rightarrow> insert k (dom (seenUsns st)))"
  by (auto simp: search_body_def dedup_key_def Let_def split: sum.splits)

lemma logged_search_body:
  "logged (search_body L r st) = logged st @ response_log L r"
  by (auto simp: search_body_def response_log_def Let_def split: sum.splits)

lemma responses_search_loop:
  "responses (search_loop L rs st) = responses st @ first_seen L (dom (seenUsns st)) rs"
proof (induction rs arbitrary: st)
  case Nil
  show ?case by simp
next
  case (Cons r rs)
  show ?case
    by (simp add: Cons.IH responses_search_body dom_seenUsns_search_body insert_absorb
        split: option.splits)
qed

lemma dom_seenUsns_search_loop:
  "dom (seenUsns (search_loop L rs st)) =
     dom (seenUsns st) \<union> {k. \<exists>r \<in> set rs. dedup_key L r = Some k}"
  by (induction rs arbitrary: st) (auto simp: dom_seenUsns_search_body split: option.splits)

lemma logged_search_loop:
  "logged (search_loop L rs st) = logged st @ concat (map (response_log L) rs)"
  by (induction rs arbitrary: st) (simp_all add: logged_search_body)

lemma search_loop_append:
  "search_loop L (xs @ ys) st = search_loop L ys (search_loop L xs st)"
  by (induction xs arbitrary: st) simp_all

lemma responses_search_init:
  "responses (search_loop L rs search_init) = first_seen L {} rs"
  by (simp add: responses_search_loop search_init_def)

lemma search_body_logged_update:
  "search_body L r (st\<lparr>logged := l\<rparr>) = (search_body L r st)\<lparr>logged := l @ response_log L r\<rparr>"
  by (auto simp: search_body_def response_log_def Let_def split: sum.splits)

lemma search_loop_logged_update:
  "search_loop L rs (st\<lparr>logged := l\<rparr>) =
     (search_loop L rs st)\<lparr>logged := l @ concat (map (response_log L) rs)\<rparr>"
proof (induction rs arbitrary: st l)
  case Nil
  show ?case by simp
next
  case (Cons r rs)
  show ?case
    by (simp add: search_body_logged_update Cons.IH logged_search_body)
qed

lemma search_body_skip:
  assumes "dedup_key L r = None"
  shows "search_body L r st = st\<lparr>logged := logged st @ response_log L r\<rparr>"
  using assms
  by (auto simp: search_body_def dedup_key_def response_log_def split: sum.splits if_splits)

lemma search_loop_skip:
  assumes "dedup_key L r = None"
  shows "search_loop L (pre @ r # post) start =
     (search_loop L (pre @ post) start)
       \<lparr>logged := logged (search_loop L (pre @ r # post) start)\<rparr>"
proof -
  let ?S = "search_loop L pre start"
  have "search_loop L (pre @ r # post) start =
      search_loop L post (?S\<lparr>logged := logged ?S @ response_log L r\<rparr>)"
    by (simp add: search_loop_append search_body_skip [OF assms])
  also have "\<dots> = (search_loop L post ?S)
      \<lparr>logged := (logged ?S @ response_log L r) @ concat (map (response_log L) post)\<rparr>"
    by (rule search_loop_logged_update)
  finally show ?thesis
    by (simp add: search_loop_append logged_search_loop)
qed

subsection \<open>The first response of each key\<close>

lemma dedup_key_None: "dedup_key L r = None \<longleftrightarrow> StatusCode r \<noteq> 200 \<or> isl (Location L r)"
  by (auto simp: dedup_key_def split: sum.splits)

lemma dedup_key_usn:
  "StatusCode r = 200 \<Longrightarrow> Location L r = Inr loc \<Longrightarrow> Header r ''USN'' \<noteq> [] \<Longrightarrow>
   dedup_key L r = Some (Header r ''USN'')"
  by (simp add: dedup_key_def)

lemma dedup_key_location:
  "StatusCode r = 200 \<Longrightarrow> Location L r = Inr loc \<Longrightarrow> Header r ''USN'' = [] \<Longrightarrow>
   dedup_key L r = Some (url_String L loc)"
  by (simp add: dedup_key_def)

lemma subseq_first_seen: "subseq (first_seen L seen rs) rs"
  by (induction rs arbitrary: seen) (auto split: option.splits)

lemma filter_first_seen:
  "filter (\<lambda>r. dedup_key L r = Some k) (first_seen L seen rs) =
     (if k \<in> seen then [] else take 1 (filter (\<lambda>r. dedup_key L r = Some k) rs))"
  by (induction rs arbitrary: seen) (auto split: option.splits)

lemma first_seen_append:
  "first_seen L seen (xs @ ys) =
     first_seen L seen xs @
     first_seen L (seen \<union> {k. \<exists>r \<in> set xs. dedup_key L r = Some k}) ys"
proof (induction xs arbitrary: seen)
  case Nil
  show ?case by simp
next
  case (Cons x xs)
  have eq: "\<And>k S. insert k S \<union> {k'. \<exists>r \<in> set xs. dedup_key L r = Some k'} =
      S \<union> {k'. k' = k \<or> (\<exists>r \<in> set xs. dedup_key L r = Some k')}"
    by auto
  show ?case
    by (cases "dedup_key L x")
      (auto simp: Cons.IH eq insert_absorb intro!: arg_cong2 [where f = "first_seen L"])
qed

lemma first_seen_drop_seen:
  assumes "dedup_key L r = Some k" and "\<exists>x \<in> set xs. dedup_key L x = Some k"
  shows "first_seen L seen (xs @ r # ys) = first_seen L seen (xs @ ys)"
  using assms by (simp add: first_seen_append)

lemma first_seen_all_None:
  "\<forall>r \<in> set rs. dedup_key L r = None \<Longrightarrow> first_seen L seen rs = []"
  by (induction rs) simp_all

lemma first_seen_head:
  "first_seen L {} rs = r # rest \<Longrightarrow> find (\<lambda>x. dedup_key L x \<noteq> None) rs = Some r"
  by (induction rs) (auto split: option.splits)

subsection \<open>ssdpRawSearch and upnpLocation\<close>

lemma ssdpRawSearch_first_seen:
  assumes "httpu (ssdpRequest host) (maxWaitSeconds * Second + 100 * Millisecond) numSends =
             Inr allResponses"
  shows "fst (ssdpRawSearch L httpu host) =
           (case first_seen L {} allResponses of
              [] \<Rightarrow> Inl ''No SSDP response avaiable''
            | r # rest \<Rightarrow> Inr r)"
  using assms by (simp add: ssdpRawSearch_def Let_def responses_search_init split: list.splits)

lemma upnpLocation_rewrite:
  assumes "NewHTTPUClient L = Inr udpcl"
    and "ssdpRawSearch L udpcl (host @ port) = (Inr resp, lg)"
    and "url_Parse L (Header resp ''Location'') = Inr loc"
  shows "upnpLocation L host port =
           (Inr (loc\<lparr>Host := (if CHR '':'' \<in> set (Host loc)
                                then host @ '':'' @ Split (Host loc) CHR '':'' ! 1
                                else host)\<rparr>),
            lg @ [LogDaemonLocation (Header resp ''Location'')])"
proof (cases "CHR '':'' \<in> set (Host loc)")
  case True
  then obtain a b rest where "Split (Host loc) CHR '':'' = a # b # rest"
    using Split_sep_two by blast
  with True assms show ?thesis
    by (simp add: upnpLocation_def Contains_def)
next
  case False
  with assms show ?thesis
    by (simp add: upnpLocation_def Contains_def)
qed

lemma upnpLocation_Inl:
  assumes "NewHTTPUClient L = Inr udpcl" and "fst (ssdpRawSearch L udpcl (host @ port)) = Inl err"
  shows "fst (upnpLocation L host port) = Inl err"
  using assms by (cases "ssdpRawSearch L udpcl (host @ port)") (simp add: upnpLocation_def)

lemma upnpLocation_Inr:
  assumes "NewHTTPUClient L = Inr udpcl" and "fst (upnpLocation L host port) = Inr loc'"
  shows "\<exists>r loc. fst (ssdpRawSearch L udpcl (host @ port)) = Inr r \<and>
           url_Parse L (Header r ''Location'') = Inr loc \<and> loc' = loc\<lparr>Host := Host loc'\<rparr>"
proof (cases "ssdpRawSearch L udpcl (host @ port)")
  case (Pair res lg)
  show ?thesis
  proof (cases res)
    case (Inl err)
    with Pair assms show ?thesis
      by (simp add: upnpLocation_def)
  next
    case (Inr r)
    show ?thesis
    proof (cases "url_Parse L (Header r ''Location'')")
      case (Inl err)
      with Pair Inr assms show ?thesis
        by (simp add: upnpLocation_def)
    next
      case parsed: (Inr loc)
      from upnpLocation_rewrite [OF assms(1) Pair [unfolded Inr] parsed] assms(2)
      have "loc' = loc\<lparr>Host := Host loc'\<rparr>"
        by auto
      with Pair Inr parsed show ?thesis
        by simp
    qed
  qed
qed


lemma demo_search_ipv6:
  "ssdpRawSearch (demo_lib [demo_response 200 ''http://[2001:db8::1]:8080/desc.xml'' ''uuid:gw''])
     (\<lambda>req timeout n. Inr [demo_response 200 ''http://[2001:db8::1]:8080/desc.xml'' ''uuid:gw''])
     (''10.0.0.1'' @ '':1900'') =
   (Inr (demo_response 200 ''http://[2001:db8::1]:8080/desc.xml'' ''uuid:gw''), [])"
  by (simp add: ssdpRawSearch_def search_init_def search_body_def demo_lib_def demo_response_def
      demo_Parse_def)



text \<open>
  Claim C10. When the host of the parsed location has two colons or more, so that it is
  \<open>a:b:c\<close> with no colon in \<open>a\<close> or in \<open>b\<close>, the piece taken as the port is \<open>b\<close>, the text
  between the first colon and the second, whatever follows the last colon; the host
  returned is the probed host joined with \<open>b\<close>.
\<close>

theorem second_segment_port:
  assumes "NewHTTPUClient L = Inr udpcl"
    and "ssdpRawSearch L udpcl (host @ port) = (Inr resp, lg)"
    and "url_Parse L (Header resp ''Location'') = Inr loc"
    and "Host loc = a @ '':'' @ b @ '':'' @ c"
    and "CHR '':'' \<notin> set a" and "CHR '':'' \<notin> set b"
  shows "Split (Host loc) CHR '':'' ! 1 = b \<and>
         fst (upnpLocation L host port) = Inr (loc\<lparr>Host := host @ '':'' @ b\<rparr>)"
proof -
  have "Split (Host loc) CHR '':'' = a # b # Split c CHR '':''"
    using assms(4-6) by (simp add: Split_first)
  then show ?thesis
    using upnpLocation_rewrite [OF assms(1-3)] assms(4) by simp
qed

text \<open>
  The bracketed IPv6 host \<open>[2001:db8::1]:8080\<close>: the piece taken is \<open>db8\<close>, not the port
  8080.
\<close>

theorem second_segment_port_witness:
  "fst (upnpLocation
          (demo_lib [demo_response 200 ''http://[2001:db8::1]:8080/desc.xml'' ''uuid:gw''])
          ''10.0.0.1'' '':1900'') =
     Inr \<lparr>Scheme = ''http'', Opaque = [], User = [], Host = ''10.0.0.1:db8'',
          Path = ''/desc.xml'', RawQuery = [], Fragment = []\<rparr> \<and>
   Split ''[2001:db8::1]:8080'' CHR '':'' ! 1 = ''db8''"
proof -
  let ?r = "demo_response 200 ''http://[2001:db8::1]:8080/desc.xml'' ''uuid:gw''"
  have 1: "NewHTTPUClient (demo_lib [?r]) = Inr (\<lambda>req timeout n. Inr [?r])"
    by (simp add: demo_lib_def)
  have 3: "url_Parse (demo_lib [?r]) (Header ?r ''Location'') = Inr (demo_url ''[2001:db8::1]:8080'')"
    by (simp add: demo_lib_def demo_response_def demo_Parse_def)
  have 4: "Host (demo_url ''[2001:db8::1]:8080'') = ''[2001'' @ '':'' @ ''db8'' @ '':'' @ '':1]:8080''"
    by (simp add: demo_url_def)
  have 5: "CHR '':'' \<notin> set ''[2001''" and 6: "CHR '':'' \<notin> set ''db8''"
    by simp_all
  from second_segment_port [OF 1 demo_search_ipv6 3 4 5 6] show ?thesis
    by (simp add: demo_url_def)
qed

text \<open>
  Claim C3. Let two responses \<open>r1\<close> and \<open>r2\<close>, \<open>r1\<close> before \<open>r2\<close>, pass the status and the
  location filter and carry the same USN header, which is not empty. Then \<open>r2\<close> adds
  nothing to the retained responses: they are those of the list without \<open>r2\<close>. Of the
  responses with this key, the loop retains one, the first of the list; that is \<open>r1\<close>
  when no response before it has the key. The retained responses are in the order of
  arrival.
\<close>

theorem dedup_first_seen:
  assumes "StatusCode r1 = 200" and "Location L r1 = Inr l1"
    and "StatusCode r2 = 200" and "Location L r2 = Inr l2"
    and "Header r1 ''USN'' = Header r2 ''USN''" and "Header r1 ''USN'' \<noteq> []"
  shows "responses (search_loop L (pre @ r1 # mid @ r2 # post) search_init) =
           responses (search_loop L (pre @ r1 # mid @ post) search_init) \<and>
         filter (\<lambda>r. dedup_key L r = Some (Header r1 ''USN''))
             (responses (search_loop L (pre @ r1 # mid @ r2 # post) search_init)) =
           take 1 (filter (\<lambda>r. dedup_key L r = Some (Header r1 ''USN''))
             (pre @ r1 # mid @ r2 # post)) \<and>
         ((\<forall>r \<in> set pre. dedup_key L r \<noteq> Some (Header r1 ''USN'')) \<longrightarrow>
            filter (\<lambda>r. dedup_key L r = Some (Header r1 ''USN''))
              (responses (search_loop L (pre @ r1 # mid @ r2 # post) search_init)) = [r1]) \<and>
         subseq (responses (search_loop L (pre @ r1 # mid @ r2 # post) search_init))
           (pre @ r1 # mid @ r2 # post)"
proof -
  let ?k = "Header r1 ''USN''"
  have k1: "dedup_key L r1 = Some ?k"
    using assms by (simp add: dedup_key_usn)
  have k2: "dedup_key L r2 = Some ?k"
    using assms by (simp add: dedup_key_usn)
  have "first_seen L {} ((pre @ r1 # mid) @ r2 # post) = first_seen L {} ((pre @ r1 # mid) @ post)"
    using k1 by (intro first_seen_drop_seen [OF k2]) auto
  then have a: "responses (search_loop L (pre @ r1 # mid @ r2 # post) search_init) =
           responses (search_loop L (pre @ r1 # mid @ post) search_init)"
    by (simp add: responses_search_init)
  have b: "filter (\<lambda>r. dedup_key L r = Some ?k)
             (responses (search_loop L (pre @ r1 # mid @ r2 # post) search_init)) =
           take 1 (filter (\<lambda>r. dedup_key L r = Some ?k) (pre @ r1 # mid @ r2 # post))"
    by (simp only: responses_search_init filter_first_seen) simp
  have c: "filter (\<lambda>r. dedup_key L r = Some ?k)
              (responses (search_loop L (pre @ r1 # mid @ r2 # post) search_init)) = [r1]"
    if "\<forall>r \<in> set pre. dedup_key L r \<noteq> Some ?k"
  proof -
    from that have "filter (\<lambda>r. dedup_key L r = Some ?k) pre = []"
      by (simp add: filter_empty_conv)
    with k1 show ?thesis
      by (simp only: b) simp
  qed
  have d: "subseq (responses (search_loop L (pre @ r1 # mid @ r2 # post) search_init))
           (pre @ r1 # mid @ r2 # post)"
    by (simp only: responses_search_init subseq_first_seen)
  from a b c d show ?thesis by blast
qed

text \<open>Two responses of one USN and two locations: the first is retained, alone.\<close>

theorem dedup_first_seen_witness:
  "responses (search_loop (demo_lib [])
      [demo_response 200 ''http://192.168.1.1:5000/desc.xml'' ''uuid:gw'',
       demo_response 200 ''http://192.168.1.1/desc.xml'' ''uuid:gw''] search_init) =
     [demo_response 200 ''http://192.168.1.1:5000/desc.xml'' ''uuid:gw'']"
proof -
  let ?r1 = "demo_response 200 ''http://192.168.1.1:5000/desc.xml'' ''uuid:gw''"
  let ?r2 = "demo_response 200 ''http://192.168.1.1/desc.xml'' ''uuid:gw''"
  let ?L = "demo_lib []"
  have h: "StatusCode ?r1 = 200" "Location ?L ?r1 = Inr (demo_url ''192.168.1.1:5000'')"
    "StatusCode ?r2 = 200" "Location ?L ?r2 = Inr (demo_url ''192.168.1.1'')"
    "Header ?r1 ''USN'' = Header ?r2 ''USN''" "Header ?r1 ''USN'' \<noteq> []"
    by (simp_all add: demo_lib_def demo_response_def demo_Parse_def)
  have one: "responses (search_loop ?L [?r1] search_init) = [?r1]"
    by (simp add: search_body_def search_init_def demo_lib_def demo_response_def demo_Parse_def)
  from dedup_first_seen [OF h, of "[]" "[]" "[]"] one show ?thesis
    by simp
qed

text \<open>
  Claim C4. A response that passes the status filter, whose location parses to \<open>loc\<close>
  and whose USN header is empty or absent is not dropped for that: the loop body logs
  the empty USN and takes the string of \<open>loc\<close> as the key; the response is appended to
  the retained ones when the key was not seen, and the key is recorded. In the whole
  loop, the response is among the retained ones when the responses before it have not
  recorded its key.
\<close>

theorem fallback_key:
  assumes "StatusCode r = 200" and "Location L r = Inr loc" and "Header r ''USN'' = []"
  shows "search_body L r st =
           (if seenUsns st (url_String L loc) = None
            then st\<lparr>seenUsns := (seenUsns st)(url_String L loc \<mapsto> True),
                    responses := responses st @ [r],
                    logged := logged st @ [LogEmptyUSN]\<rparr>
            else st\<lparr>logged := logged st @ [LogEmptyUSN]\<rparr>) \<and>
         dedup_key L r = Some (url_String L loc) \<and>
         (seenUsns (search_loop L pre search_init) (url_String L loc) = None \<longrightarrow>
            r \<in> set (responses (search_loop L (pre @ r # post) search_init)))"
proof -
  have a: "search_body L r st =
           (if seenUsns st (url_String L loc) = None
            then st\<lparr>seenUsns := (seenUsns st)(url_String L loc \<mapsto> True),
                    responses := responses st @ [r],
                    logged := logged st @ [LogEmptyUSN]\<rparr>
            else st\<lparr>logged := logged st @ [LogEmptyUSN]\<rparr>)"
    using assms by (simp add: search_body_def)
  have k: "dedup_key L r = Some (url_String L loc)"
    using assms by (rule dedup_key_location)
  have c: "r \<in> set (responses (search_loop L (pre @ r # post) search_init))"
    if "seenUsns (search_loop L pre search_init) (url_String L loc) = None"
  proof -
    from that have "url_String L loc \<notin> dom (seenUsns (search_loop L pre search_init))"
      by (simp add: domIff)
    then have "url_String L loc \<notin> {k. \<exists>x \<in> set pre. dedup_key L x = Some k}"
      by (simp add: dom_seenUsns_search_loop search_init_def)
    with k show ?thesis
      by (simp add: responses_search_init first_seen_append)
  qed
  from a k c show ?thesis by blast
qed

text \<open>A response with no USN header is retained, under the string of its location.\<close>

theorem fallback_key_witness:
  "demo_response 200 ''http://192.168.1.1/desc.xml'' [] \<in>
     set (responses (search_loop (demo_lib [])
       [demo_response 200 ''http://192.168.1.1/desc.xml'' []] search_init)) \<and>
   dedup_key (demo_lib []) (demo_response 200 ''http://192.168.1.1/desc.xml'' []) =
     Some ''http://192.168.1.1/desc.xml''"
proof -
  let ?r = "demo_response 200 ''http://192.168.1.1/desc.xml'' []"
  let ?L = "demo_lib []"
  have h: "StatusCode ?r = 200" "Location ?L ?r = Inr (demo_url ''192.168.1.1'')"
    "Header ?r ''USN'' = []"
    by (simp_all add: demo_lib_def demo_response_def demo_Parse_def)
  have s: "url_String ?L (demo_url ''192.168.1.1'') = ''http://192.168.1.1/desc.xml''"
    by (simp add: demo_lib_def demo_String_def demo_url_def)
  have n: "seenUsns (search_loop ?L [] search_init) (url_String ?L (demo_url ''192.168.1.1'')) = None"
    by (simp add: search_init_def)
  from fallback_key [OF h, of search_init "[]" "[]"] n s show ?thesis
    by simp
qed

text \<open>
  A response with status 200, a location that parses and no USN header is logged but not
  skipped: it is the one retained response, and the search returns it.
\<close>

theorem anomalies_counterexample:
  "StatusCode (demo_response 200 ''http://192.168.1.1/desc.xml'' []) = 200 \<and>
   Header (demo_response 200 ''http://192.168.1.1/desc.xml'' []) ''USN'' = [] \<and>
   responses (search_loop (demo_lib [])
       [demo_response 200 ''http://192.168.1.1/desc.xml'' []] search_init) =
     [demo_response 200 ''http://192.168.1.1/desc.xml'' []] \<and>
   ssdpRawSearch (demo_lib [])
       (\<lambda>req timeout n. Inr [demo_response 200 ''http://192.168.1.1/desc.xml'' []]) ''10.0.0.1:1900'' =
     (Inr (demo_response 200 ''http://192.168.1.1/desc.xml'' []), [LogEmptyUSN])"
  by (simp add: ssdpRawSearch_def search_body_def search_init_def demo_lib_def demo_response_def
      demo_Parse_def)

text \<open>
  Claim C5, as amended. A response whose status is not 200, or whose \<open>Location()\<close> gives
  an error, is logged and skipped: the loop goes on with the responses after it from
  the state it had before, with one more line in the log. The retained responses and
  the keys seen at the end, and the result of the search, are those of the list without
  that response. A response with status 200, a location that parses and an empty or
  absent USN header is logged and processed: it is retained under the string of its
  location when that key was not seen. None of the three ends the loop.
\<close>

theorem anomalies_nonfatal:
  "(StatusCode r \<noteq> 200 \<longrightarrow>
      search_loop L (pre @ r # post) start =
        search_loop L post
          ((search_loop L pre start)
             \<lparr>logged := logged (search_loop L pre start) @ [LogStatusCode (Status r)]\<rparr>)) \<and>
   (StatusCode r = 200 \<and> Location L r = Inl err \<longrightarrow>
      search_loop L (pre @ r # post) start =
        search_loop L post
          ((search_loop L pre start)
             \<lparr>logged := logged (search_loop L pre start) @ [LogNoLocation err]\<rparr>)) \<and>
   (StatusCode r \<noteq> 200 \<or> isl (Location L r) \<longrightarrow>
      responses (search_loop L (pre @ r # post) start) =
        responses (search_loop L (pre @ post) start) \<and>
      seenUsns (search_loop L (pre @ r # post) start) =
        seenUsns (search_loop L (pre @ post) start) \<and>
      fst (ssdpRawSearch L (\<lambda>req timeout n. Inr (pre @ r # post)) host) =
        fst (ssdpRawSearch L (\<lambda>req timeout n. Inr (pre @ post)) host)) \<and>
   (StatusCode r = 200 \<and> Location L r = Inr loc \<and> Header r ''USN'' = [] \<longrightarrow>
      search_loop L (pre @ r # post) start =
        search_loop L post
          (let st = (search_loop L pre start)
                      \<lparr>logged := logged (search_loop L pre start) @ [LogEmptyUSN]\<rparr>
           in if seenUsns st (url_String L loc) = None
              then st\<lparr>seenUsns := (seenUsns st)(url_String L loc \<mapsto> True),
                      responses := responses st @ [r]\<rparr>
              else st))"
proof (intro conjI impI)
  assume "StatusCode r \<noteq> 200"
  then show "search_loop L (pre @ r # post) start =
        search_loop L post
          ((search_loop L pre start)
             \<lparr>logged := logged (search_loop L pre start) @ [LogStatusCode (Status r)]\<rparr>)"
    by (simp add: search_loop_append search_body_def)
next
  assume "StatusCode r = 200 \<and> Location L r = Inl err"
  then show "search_loop L (pre @ r # post) start =
        search_loop L post
          ((search_loop L pre start)
             \<lparr>logged := logged (search_loop L pre start) @ [LogNoLocation err]\<rparr>)"
    by (simp add: search_loop_append search_body_def)
next
  assume "StatusCode r = 200 \<and> Location L r = Inr loc \<and> Header r ''USN'' = []"
  then show "search_loop L (pre @ r # post) start =
        search_loop L post
          (let st = (search_loop L pre start)
                      \<lparr>logged := logged (search_loop L pre start) @ [LogEmptyUSN]\<rparr>
           in if seenUsns st (url_String L loc) = None
              then st\<lparr>seenUsns := (seenUsns st)(url_String L loc \<mapsto> True),
                      responses := responses st @ [r]\<rparr>
              else st)"
    by (simp add: search_loop_append search_body_def Let_def)
next
  assume "StatusCode r \<noteq> 200 \<or> isl (Location L r)"
  then have n: "dedup_key L r = None"
    by (simp add: dedup_key_None)
  have eq: "search_loop L (pre @ r # post) s =
     (search_loop L (pre @ post) s)\<lparr>logged := logged (search_loop L (pre @ r # post) s)\<rparr>"
    for s
    by (rule search_loop_skip [OF n])
  show "responses (search_loop L (pre @ r # post) start) =
      responses (search_loop L (pre @ post) start)"
    by (subst eq) simp
  show "seenUsns (search_loop L (pre @ r # post) start) =
      seenUsns (search_loop L (pre @ post) start)"
    by (subst eq) simp
  have "responses (search_loop L (pre @ r # post) search_init) =
      responses (search_loop L (pre @ post) search_init)"
    by (subst eq) simp
  then show "fst (ssdpRawSearch L (\<lambda>req timeout n. Inr (pre @ r # post)) host) =
        fst (ssdpRawSearch L (\<lambda>req timeout n. Inr (pre @ post)) host)"
    by (simp add: ssdpRawSearch_def Let_def split: list.splits)
qed

text \<open>
  A response with status 500 before a good one: one line is logged, the good response is
  retained and returned.
\<close>

theorem anomalies_nonfatal_witness:
  "search_loop (demo_lib [])
     [demo_response 500 [] [], demo_response 200 ''http://192.168.1.1/desc.xml'' ''uuid:gw'']
     search_init =
   \<lparr>seenUsns = [''uuid:gw'' \<mapsto> True],
    responses = [demo_response 200 ''http://192.168.1.1/desc.xml'' ''uuid:gw''],
    logged = [LogStatusCode ''500 Internal Server Error'']\<rparr> \<and>
   fst (ssdpRawSearch (demo_lib [])
     (\<lambda>req timeout n.
        Inr [demo_response 500 [] [], demo_response 200 ''http://192.168.1.1/desc.xml'' ''uuid:gw''])
     ''10.0.0.1:1900'') =
   Inr (demo_response 200 ''http://192.168.1.1/desc.xml'' ''uuid:gw'')"
proof -
  let ?bad = "demo_response 500 [] []"
  let ?good = "demo_response 200 ''http://192.168.1.1/desc.xml'' ''uuid:gw''"
  let ?L = "demo_lib []"
  have bad: "StatusCode ?bad \<noteq> 200"
    by (simp add: demo_response_def)
  have st: "Status ?bad = ''500 Internal Server Error''"
    by (simp add: demo_response_def)
  note inst = anomalies_nonfatal [where r = ?bad and L = ?L and pre = "[]" and post = "[?good]"
      and start = search_init and host = "''10.0.0.1:1900''"]
  from inst bad have
    a: "search_loop ?L ([] @ ?bad # [?good]) search_init =
        search_loop ?L [?good]
          ((search_loop ?L [] search_init)
             \<lparr>logged := logged (search_loop ?L [] search_init) @ [LogStatusCode (Status ?bad)]\<rparr>)"
    and b: "fst (ssdpRawSearch ?L (\<lambda>req timeout n. Inr ([] @ ?bad # [?good])) ''10.0.0.1:1900'') =
        fst (ssdpRawSearch ?L (\<lambda>req timeout n. Inr ([] @ [?good])) ''10.0.0.1:1900'')"
    by blast+
  have a': "search_loop ?L [?bad, ?good] search_init =
     \<lparr>seenUsns = [''uuid:gw'' \<mapsto> True], responses = [?good],
      logged = [LogStatusCode ''500 Internal Server Error'']\<rparr>"
    using a st
    by (simp add: search_body_def search_init_def demo_lib_def demo_response_def demo_Parse_def)
  have b': "fst (ssdpRawSearch ?L (\<lambda>req timeout n. Inr [?bad, ?good]) ''10.0.0.1:1900'') = Inr ?good"
    using b
    by (simp add: ssdpRawSearch_def search_body_def search_init_def demo_lib_def demo_response_def
        demo_Parse_def)
  from a' b' show ?thesis by simp
qed

text \<open>
  Claim C6. Let the client be created and its \<open>Do\<close> return the responses. If every
  response has a status other than 200 or a location that \<open>Location()\<close> rejects, the
  search fails with the error "No SSDP response avaiable", and so does \<open>upnpLocation\<close>:
  no location is returned. When \<open>upnpLocation\<close> returns a location, the loop has retained
  a response; the first retained one is the first response in arrival order that passes
  both filters, the search returns it, and the location returned is its parsed
  \<open>Location\<close> header, the host apart.
\<close>

theorem no_response_is_error:
  assumes "NewHTTPUClient L = Inr udpcl"
    and "udpcl (ssdpRequest (host @ port)) (maxWaitSeconds * Second + 100 * Millisecond) numSends =
           Inr allResponses"
  shows "((\<forall>r \<in> set allResponses. StatusCode r \<noteq> 200 \<or> isl (Location L r)) \<longrightarrow>
            fst (ssdpRawSearch L udpcl (host @ port)) = Inl ''No SSDP response avaiable'' \<and>
            fst (upnpLocation L host port) = Inl ''No SSDP response avaiable'') \<and>
         (\<forall>loc'. fst (upnpLocation L host port) = Inr loc' \<longrightarrow>
            (\<exists>r rest loc.
               responses (search_loop L allResponses search_init) = r # rest \<and>
               find (\<lambda>x. StatusCode x = 200 \<and> \<not> isl (Location L x)) allResponses = Some r \<and>
               fst (ssdpRawSearch L udpcl (host @ port)) = Inr r \<and>
               url_Parse L (Header r ''Location'') = Inr loc \<and>
               loc' = loc\<lparr>Host := Host loc'\<rparr>))"
proof (intro conjI impI allI)
  note search = ssdpRawSearch_first_seen
    [where httpu = udpcl and host = "host @ port" and L = L, OF assms(2)]
  {
    assume "\<forall>r \<in> set allResponses. StatusCode r \<noteq> 200 \<or> isl (Location L r)"
    then have "first_seen L {} allResponses = []"
      by (intro first_seen_all_None) (simp add: dedup_key_None)
    then show a: "fst (ssdpRawSearch L udpcl (host @ port)) = Inl ''No SSDP response avaiable''"
      by (simp add: search)
    show "fst (upnpLocation L host port) = Inl ''No SSDP response avaiable''"
      by (rule upnpLocation_Inl [OF assms(1) a])
  }
  fix loc'
  assume "fst (upnpLocation L host port) = Inr loc'"
  from upnpLocation_Inr [OF assms(1) this] obtain r loc where
    r: "fst (ssdpRawSearch L udpcl (host @ port)) = Inr r"
    and loc: "url_Parse L (Header r ''Location'') = Inr loc" "loc' = loc\<lparr>Host := Host loc'\<rparr>"
    by blast
  from r obtain rest where fs: "first_seen L {} allResponses = r # rest"
    by (auto simp: search split: list.splits)
  have "(\<lambda>x. dedup_key L x \<noteq> None) = (\<lambda>x. StatusCode x = 200 \<and> \<not> isl (Location L x))"
    by (simp add: dedup_key_None)
  with first_seen_head [OF fs]
  have "find (\<lambda>x. StatusCode x = 200 \<and> \<not> isl (Location L x)) allResponses = Some r"
    by simp
  with r loc fs
  show "\<exists>r rest loc.
               responses (search_loop L allResponses search_init) = r # rest \<and>
               find (\<lambda>x. StatusCode x = 200 \<and> \<not> isl (Location L x)) allResponses = Some r \<and>
               fst (ssdpRawSearch L udpcl (host @ port)) = Inr r \<and>
               url_Parse L (Header r ''Location'') = Inr loc \<and>
               loc' = loc\<lparr>Host := Host loc'\<rparr>"
    by (auto simp: responses_search_init)
qed

text \<open>A response with status 500 and one with no location: the discovery fails.\<close>

theorem no_response_is_error_witness:
  "fst (upnpLocation
     (demo_lib [demo_response 500 ''http://192.168.1.1/desc.xml'' ''uuid:gw'',
                demo_response 200 [] ''uuid:gw''])
     ''10.0.0.1'' '':1900'') = Inl ''No SSDP response avaiable''"
proof -
  let ?rs = "[demo_response 500 ''http://192.168.1.1/desc.xml'' ''uuid:gw'',
              demo_response 200 [] ''uuid:gw'']"
  have 1: "NewHTTPUClient (demo_lib ?rs) = Inr (\<lambda>req timeout n. Inr ?rs)"
    by (simp add: demo_lib_def)
  have 2: "(\<lambda>req timeout n. Inr ?rs) (ssdpRequest (''10.0.0.1'' @ '':1900''))
      (maxWaitSeconds * Second + 100 * Millisecond) numSends = Inr ?rs"
    by simp
  have 3: "\<forall>r \<in> set ?rs. StatusCode r \<noteq> 200 \<or> isl (Location (demo_lib ?rs) r)"
    by (simp add: demo_lib_def demo_response_def)
  from no_response_is_error [OF 1 2] 3 show ?thesis
    by blast
qed

lemma FormatUint_5: "FormatUint 5 = ''5''"
  by (simp add: FormatUint.simps [of 5] digit_def)

text \<open>
  Claim C7. For every probed \<open>host:port\<close>, the search calls \<open>Do\<close> once, with the request
  below, the window of 5 seconds and 100 milliseconds (5100000000 nanoseconds) and 2
  sends, and what it does next depends on the answer of that call only. The request has
  the method M-SEARCH, the opaque URI \<open>*\<close> and exactly the four headers HOST (the probed
  \<open>host:port\<close>), MAN (ssdp:discover), MX (5) and ST (upnp:rootdevice), under these names.
  The sending itself, twice within the window, is the work of \<open>httpu.Do\<close>.
\<close>

theorem discovery_probe:
  "ssdpRawSearch L httpu host =
     (case httpu (ssdpRequest host) 5100000000 2 of
        Inl err \<Rightarrow> (Inl err, [])
      | Inr allResponses \<Rightarrow> ssdpRawSearch L (\<lambda>req timeout n. Inr allResponses) host) \<and>
   maxWaitSeconds * Second + 100 * Millisecond = 5100000000 \<and> numSends = 2 \<and>
   Method (ssdpRequest host) = ''M-SEARCH'' \<and>
   ReqHost (ssdpRequest host) = host \<and>
   URL (ssdpRequest host) =
     \<lparr>Scheme = [], Opaque = ''*'', User = [], Host = [], Path = [], RawQuery = [],
      Fragment = []\<rparr> \<and>
   dom (ReqHeader (ssdpRequest host)) = {''HOST'', ''MAN'', ''MX'', ''ST''} \<and>
   ReqHeader (ssdpRequest host) ''HOST'' = Some [host] \<and>
   ReqHeader (ssdpRequest host) ''MAN'' = Some [''ssdp:discover''] \<and>
   ReqHeader (ssdpRequest host) ''MX'' = Some [''5''] \<and>
   ReqHeader (ssdpRequest host) ''ST'' = Some [''upnp:rootdevice'']"
proof -
  have t: "maxWaitSeconds * Second + 100 * Millisecond = 5100000000" and n: "numSends = 2"
    by (simp_all add: maxWaitSeconds_def Second_def Millisecond_def numSends_def)
  have call: "ssdpRawSearch L httpu host =
     (case httpu (ssdpRequest host) 5100000000 2 of
        Inl err \<Rightarrow> (Inl err, [])
      | Inr allResponses \<Rightarrow> ssdpRawSearch L (\<lambda>req timeout n. Inr allResponses) host)"
    by (simp add: ssdpRawSearch_def t n split: sum.splits)
  have hdr: "dom (ReqHeader (ssdpRequest host)) = {''HOST'', ''MAN'', ''MX'', ''ST''}"
    by (auto simp: ssdpRequest_def)
  have vals: "ReqHeader (ssdpRequest host) ''HOST'' = Some [host]"
    "ReqHeader (ssdpRequest host) ''MAN'' = Some [''ssdp:discover'']"
    "ReqHeader (ssdpRequest host) ''MX'' = Some [''5'']"
    "ReqHeader (ssdpRequest host) ''ST'' = Some [''upnp:rootdevice'']"
    by (simp_all add: ssdpRequest_def ssdpDiscover_def searchTarget_def FormatInt_def
        maxWaitSeconds_def FormatUint_5)
  have req: "Method (ssdpRequest host) = ''M-SEARCH''" "ReqHost (ssdpRequest host) = host"
    "URL (ssdpRequest host) =
       \<lparr>Scheme = [], Opaque = ''*'', User = [], Host = [], Path = [], RawQuery = [],
        Fragment = []\<rparr>"
    by (simp_all add: ssdpRequest_def methodSearch_def)
  from call t n req hdr vals show ?thesis by simp
qed

subsection \<open>portMappingByIdx and the loop of main\<close>

text \<open>
  Claim C8. Marshalling succeeds for every 16-bit index, so the branch of
  \<open>portMappingByIdx\<close> that returns the encoding error is never taken: the result of
  \<open>portMappingByIdx\<close> is the result of the remote call, made with the index in decimal
  digits.
\<close>

theorem marshal_succeeds:
  "(\<exists>si. MarshalUi2 index = Inr si) \<and>
   portMappingByIdx conn index =
     PerformAction conn URN_WANIPConnection_1 ''GetGenericPortMappingEntry''
       \<lparr>NewPortMappingIndex = FormatUint (unat index)\<rparr>"
  by (simp add: MarshalUi2_def portMappingByIdx_def split: sum.splits)

text \<open>
  Claim C9. The request that \<open>portMappingByIdx\<close> hands to the remote call is a function
  of the index alone: one function \<open>payload\<close> gives the request for every connection
  and every index, so that two calls with the same index send the same request.
\<close>

theorem marshal_deterministic:
  "\<exists>payload. \<forall>conn index.
     portMappingByIdx conn index =
       PerformAction conn URN_WANIPConnection_1 ''GetGenericPortMappingEntry'' (payload index)"
proof (intro exI allI)
  fix conn index
  show "portMappingByIdx conn index =
       PerformAction conn URN_WANIPConnection_1 ''GetGenericPortMappingEntry''
         ((\<lambda>i. \<lparr>NewPortMappingIndex = FormatUint (unat i)\<rparr>) index)"
    by (simp add: MarshalUi2_def portMappingByIdx_def split: sum.splits)
qed

lemma entries_loop_table:
  assumes valid: "\<forall>j<length tbl. portMappingByIdx c (of_nat j) = Inr (tbl ! j)"
    and stop: "portMappingByIdx c (of_nat (length tbl)) = Inl err"
  shows "i \<le> length tbl \<Longrightarrow>
         entries_loop c i lg =
           (if length tbl < 50
            then (Some err, lg @ map LogEntry (drop i tbl) @ [LogFatal err])
            else (None, lg @ map LogEntry (drop i (take 50 tbl))))"
proof (induction "50 - i" arbitrary: i lg)
  case 0
  then show ?case
    by (subst entries_loop.simps) simp
next
  case (Suc n)
  then have i50: "i < 50" by simp
  show ?case
  proof (cases "i = length tbl")
    case True
    with i50 stop show ?thesis
      by (subst entries_loop.simps) simp
  next
    case False
    with Suc.prems have lt: "i < length tbl" by simp
    with valid have q: "portMappingByIdx c (of_nat i) = Inr (tbl ! i)" by simp
    have d: "drop i tbl = tbl ! i # drop (Suc i) tbl"
      using lt by (simp add: Cons_nth_drop_Suc)
    have d50: "drop i (take 50 tbl) = tbl ! i # drop (Suc i) (take 50 tbl)"
      using lt i50 by (simp add: Cons_nth_drop_Suc [symmetric])
    have n: "n = 50 - Suc i"
      using Suc.hyps(2) by simp
    have "entries_loop c (Suc i) (lg @ [LogEntry (tbl ! i)]) =
         (if length tbl < 50
          then (Some err,
                (lg @ [LogEntry (tbl ! i)]) @ map LogEntry (drop (Suc i) tbl) @ [LogFatal err])
          else (None, (lg @ [LogEntry (tbl ! i)]) @ map LogEntry (drop (Suc i) (take 50 tbl))))"
      using lt by (intro Suc.hyps(1) [OF n]) simp
    with i50 q d d50 show ?thesis
      by (subst entries_loop.simps) simp
  qed
qed

text \<open>
  A connection with 51 valid indices, 0 to 50, and an error at index 51: the loop logs
  the 50 entries of the indices 0 to 49 and ends without an error; it does not log the
  51 entries and does not reach the error.
\<close>

theorem enumeration_counterexample:
  "map (\<lambda>j. portMappingByIdx (demo_conn 51) (of_nat j)) [0..<51] = map Inr (demo_table 51) \<and>
   portMappingByIdx (demo_conn 51) (of_nat 51) = Inl ''SpecifiedArrayIndexInvalid'' \<and>
   length (demo_table 51) = 51 \<and>
   entries_loop (demo_conn 51) 0 [] = (None, map LogEntry (take 50 (demo_table 51))) \<and>
   entries_loop (demo_conn 51) 0 [] \<noteq>
     (Some ''SpecifiedArrayIndexInvalid'',
      map LogEntry (demo_table 51) @ [LogFatal ''SpecifiedArrayIndexInvalid''])"
proof -
  have a: "map (\<lambda>j. portMappingByIdx (demo_conn 51) (of_nat j)) [0..<51] = map Inr (demo_table 51)"
    by code_simp
  have b: "portMappingByIdx (demo_conn 51) (of_nat 51) = Inl ''SpecifiedArrayIndexInvalid''"
    by code_simp
  have c: "length (demo_table 51) = 51"
    by (simp add: demo_table_def)
  have d: "entries_loop (demo_conn 51) 0 [] = (None, map LogEntry (take 50 (demo_table 51)))"
    by code_simp
  from a b c d show ?thesis by simp
qed

text \<open>
  Claim C2, as amended. Let the connection answer the indices below \<open>K\<close> with the entries
  of a table of length \<open>K\<close> and the index \<open>K\<close> with an error. If \<open>K\<close> is below 50, the loop
  of \<open>main\<close> logs exactly the entries of the indices 0 to \<open>K - 1\<close>, in ascending order,
  and then ends the process on the error of index \<open>K\<close>. If \<open>K\<close> is 50 or more, it logs
  exactly the entries of the indices 0 to 49, in ascending order, and ends without an
  error. In the loop over the connections, the entries follow the line that names the
  connection; after the error no later connection is enumerated, and without it the
  loop goes on with the next connection.
\<close>

theorem enumeration_order:
  assumes "\<forall>j<length tbl. portMappingByIdx c (of_nat j) = Inr (tbl ! j)"
    and "portMappingByIdx c (of_nat (length tbl)) = Inl err"
  shows "entries_loop c 0 lg =
           (if length tbl < 50
            then (Some err, lg @ map LogEntry tbl @ [LogFatal err])
            else (None, lg @ map LogEntry (take 50 tbl))) \<and>
         clients_loop (c # cs) lg =
           (if length tbl < 50
            then (Some err,
                  lg @ LogClient (FriendlyName c) (ServiceString c) # map LogEntry tbl @
                  [LogFatal err])
            else clients_loop cs
                   (lg @ LogClient (FriendlyName c) (ServiceString c) #
                    map LogEntry (take 50 tbl)))"
  using entries_loop_table [OF assms, of 0 lg]
    entries_loop_table [OF assms, of 0 "lg @ [LogClient (FriendlyName c) (ServiceString c)]"]
  by simp

text \<open>A table of two entries: both are logged in order, then the error of index 2.\<close>

theorem enumeration_order_witness:
  "entries_loop (demo_conn 2) 0 [] =
     (Some ''SpecifiedArrayIndexInvalid'',
      [LogEntry (demo_entry ''0''), LogEntry (demo_entry ''1''),
       LogFatal ''SpecifiedArrayIndexInvalid''])"
proof -
  have e0: "portMappingByIdx (demo_conn 2) (of_nat 0) = Inr (demo_entry ''0'')"
    by code_simp
  have e1: "portMappingByIdx (demo_conn 2) (of_nat 1) = Inr (demo_entry ''1'')"
    by code_simp
  have e2: "portMappingByIdx (demo_conn 2) (of_nat 2) = Inl ''SpecifiedArrayIndexInvalid''"
    by code_simp
  let ?tbl = "[demo_entry ''0'', demo_entry ''1'']"
  have valid: "\<forall>j<length ?tbl. portMappingByIdx (demo_conn 2) (of_nat j) = Inr (?tbl ! j)"
    using e0 e1 by (simp add: less_Suc_eq)
  have stop: "portMappingByIdx (demo_conn 2) (of_nat (length ?tbl)) =
      Inl ''SpecifiedArrayIndexInvalid''"
    using e2 by simp
  from enumeration_order [OF valid stop, where lg = "[]"] show ?thesis
    by simp
qed

end
